theory Spec2Isabelle
  imports
    Complex_Main
    "HOL-Library.Char_ord"
    "HOL-Library.List_Lexorder"
    "HOL-Library.Product_Lexorder"
begin

section \<open>Data model of \<open>pump_n_dump.py\<close>\<close>

text \<open>
  A row of \<open>transactions_df\<close>, restricted to the columns the detector reads.
  \<open>block_number\<close> is the value of a cell of a 64-bit signed integer column, from
  \<open>-2^63\<close> to \<open>2^63 - 1\<close>; \<open>tx_token_type\<close> is the address of the first log or
  \<open>None\<close>; \<open>tx_value_eth\<close> is a Python float, modelled as an exact real: rounding,
  infinities and NaN are outside the model.
\<close>

record tx =
  tx_hash :: string
  block_number :: int
  block_timestamp :: int
  tx_token_type :: "string option"
  tx_value_eth :: real

text \<open>The same row once line 112 has added the column \<open>interval\<close>.\<close>

record row = tx +
  interval :: int

text \<open>
  A row of \<open>interval_sums\<close> (line 115). Its columns are called \<open>interval\<close>,
  \<open>tx_token_type\<close> and \<open>tx_value_eth\<close> in the source; the fields are prefixed here
  because a record field is a global constant.
\<close>

record agg =
  sum_interval :: int
  sum_token_type :: string
  sum_value_eth :: real

text \<open>
  The dictionary appended to \<open>pump_intervals\<close> or \<open>dump_intervals\<close> (lines 134-148); the
  key \<open>interval\<close> is the field \<open>ev_interval\<close>.
\<close>

record event =
  ev_interval :: int
  token_type :: string
  current_interval_sum :: real
  previous_interval_sum :: real
  difference :: real

datatype error = IndexError | ValueError | OverflowError

section \<open>Interval aggregation (lines 107-115)\<close>

definition whale_cap :: real where
  "whale_cap = 500"

text \<open>
  Arithmetic on a 64-bit signed integer column does not check for overflow: the cell
  holds the result reduced into the range from \<open>-2^63\<close> to \<open>2^63 - 1\<close>.
\<close>

definition wrap64 :: "int \<Rightarrow> int" where
  "wrap64 x = (x + 2 ^ 63) mod 2 ^ 64 - 2 ^ 63"

text \<open>
  Line 112, one cell: \<open>//\<close> rounds towards minus infinity, as \<open>div\<close> on \<open>int\<close> does, and
  the sum with 1 is a 64-bit sum, so the largest block number, with one block per
  interval, lands in interval \<open>-2^63\<close>. For \<open>interval_blocks = 0\<close> pandas yields a
  non-finite float and HOL yields 1: the model is meant for a non-zero
  \<open>interval_blocks\<close>.
\<close>

definition interval_of :: "int \<Rightarrow> int \<Rightarrow> int" where
  "interval_of block interval_blocks = wrap64 ((block div interval_blocks) + 1)"

definition add_interval :: "int \<Rightarrow> tx \<Rightarrow> row" where
  "add_interval interval_blocks t =
     \<lparr>tx_hash = tx_hash t, block_number = block_number t,
      block_timestamp = block_timestamp t, tx_token_type = tx_token_type t,
      tx_value_eth = tx_value_eth t,
      interval = interval_of (block_number t) interval_blocks\<rparr>"

text \<open>
  Lines 108-112: sort by block number, keep the rows below the whale cap, add the
  interval column. The order pandas gives to rows of equal block number is not fixed by
  the source; the model takes the stable one.
\<close>

definition prepare :: "tx list \<Rightarrow> int \<Rightarrow> row list" where
  "prepare transactions_df interval_blocks =
     map (add_interval interval_blocks)
       (filter (\<lambda>t. tx_value_eth t < whale_cap)
         (sort_key block_number transactions_df))"

text \<open>
  Line 115: \<open>groupby(["interval", "tx_token_type"])["tx_value_eth"].sum().reset_index()\<close>.
  pandas drops the rows whose key is missing (a \<open>None\<close> token), sorts the keys, and sums
  the column within each key.
\<close>

definition group_keys :: "row list \<Rightarrow> (int \<times> string) list" where
  "group_keys df =
     sort (remdups (List.map_filter
       (\<lambda>r. map_option (\<lambda>tok. (interval r, tok)) (tx_token_type r)) df))"

definition interval_sums :: "row list \<Rightarrow> agg list" where
  "interval_sums df =
     map (\<lambda>(i, tok).
           \<lparr>sum_interval = i, sum_token_type = tok,
            sum_value_eth = sum_list (map tx_value_eth
              (filter (\<lambda>r. interval r = i \<and> tx_token_type r = Some tok) df))\<rparr>)
       (group_keys df)"

text \<open>
  Line 123: \<open>interval_sums.groupby("tx_token_type")\<close>: one group per token, tokens in
  ascending order, the rows of a group in the order they have in \<open>interval_sums\<close>.
\<close>

definition grouped :: "agg list \<Rightarrow> (string \<times> agg list) list" where
  "grouped sums_df =
     map (\<lambda>tok. (tok, filter (\<lambda>a. sum_token_type a = tok) sums_df))
       (sort (remdups (map sum_token_type sums_df)))"

section \<open>The detector loop (lines 127-148)\<close>

text \<open>
  \<open>group.iloc[i]\<close>: a negative position counts from the end, a position outside the
  frame raises \<open>IndexError\<close>.
\<close>

definition iloc :: "'a list \<Rightarrow> int \<Rightarrow> error + 'a" where
  "iloc xs i =
     (if 0 \<le> i \<and> i < int (length xs) then Inr (xs ! nat i)
      else if - int (length xs) \<le> i \<and> i < 0 then Inr (xs ! nat (int (length xs) + i))
      else Inl IndexError)"

text \<open>The body of the inner loop, lines 129-148, for one value of \<open>i\<close>.\<close>

definition loop_body ::
  "real \<Rightarrow> int \<Rightarrow> string \<Rightarrow> agg list \<Rightarrow> int \<Rightarrow> event list \<times> event list
     \<Rightarrow> error + (event list \<times> event list)" where
  "loop_body pump_threshold_value pump_threshold_interval tok grp i acc =
     (case iloc grp (i - 1) of
        Inl e \<Rightarrow> Inl e
      | Inr cur \<Rightarrow>
         (case iloc grp (i - pump_threshold_interval) of
            Inl e \<Rightarrow> Inl e
          | Inr prev \<Rightarrow>
             (let current_sum = sum_value_eth cur;
                  previous_sum = sum_value_eth prev;
                  diff = current_sum - previous_sum;
                  ev = \<lparr>ev_interval = sum_interval cur, token_type = tok,
                        current_interval_sum = current_sum,
                        previous_interval_sum = previous_sum,
                        difference = diff\<rparr>
              in if diff > pump_threshold_value then Inr (fst acc @ [ev], snd acc)
                 else if diff < - pump_threshold_value then Inr (fst acc, snd acc @ [ev])
                 else Inr acc)))"

text \<open>A \<open>for\<close> loop whose body may raise: the first error ends it.\<close>

fun for_each :: "('a \<Rightarrow> 's \<Rightarrow> error + 's) \<Rightarrow> 'a list \<Rightarrow> 's \<Rightarrow> error + 's" where
  "for_each body [] s = Inr s"
| "for_each body (x # xs) s =
     (case body x s of Inl e \<Rightarrow> Inl e | Inr s' \<Rightarrow> for_each body xs s')"

text \<open>
  Lines 128-148 for one group: \<open>range(pump_threshold_interval, len(group) + 1)\<close> is the
  integer interval from \<open>pump_threshold_interval\<close> to \<open>len(group)\<close>.
\<close>

definition detect_group ::
  "real \<Rightarrow> int \<Rightarrow> string \<times> agg list \<Rightarrow> event list \<times> event list
     \<Rightarrow> error + (event list \<times> event list)" where
  "detect_group pump_threshold_value pump_threshold_interval g acc =
     for_each (loop_body pump_threshold_value pump_threshold_interval (fst g) (snd g))
       [pump_threshold_interval .. int (length (snd g))] acc"

text \<open>Lines 119-148: both lists start empty and every group is visited in turn.\<close>

definition detect_groups ::
  "real \<Rightarrow> int \<Rightarrow> (string \<times> agg list) list \<Rightarrow> error + (event list \<times> event list)" where
  "detect_groups pump_threshold_value pump_threshold_interval gs =
     for_each (detect_group pump_threshold_value pump_threshold_interval) gs ([], [])"

text \<open>
  Lines 156-160 and 168-172: the rows printed for one flagged interval. They are
  selected from \<open>transactions_df\<close> as it stands after lines 108-112. The lower bound
  \<open>interval - 2\<close> is taken as it is, which is what the code computes unless the flagged
  interval is one of the two smallest 64-bit values.
\<close>

definition relevant_transactions :: "row list \<Rightarrow> int \<Rightarrow> string \<Rightarrow> row list" where
  "relevant_transactions df i tok =
     filter (\<lambda>r. interval r \<ge> i - 2 \<and> interval r \<le> i \<and> tx_token_type r = Some tok) df"

text \<open>
  What a call leaves behind: the two lists it returns and, for each of their entries,
  the rows it prints (lines 151-173).
\<close>

record detection =
  pump_intervals :: "event list"
  dump_intervals :: "event list"
  pump_details :: "(event \<times> row list) list"
  dump_details :: "(event \<times> row list) list"

definition details :: "row list \<Rightarrow> event list \<Rightarrow> (event \<times> row list) list" where
  "details df evs =
     map (\<lambda>e. (e, relevant_transactions df (ev_interval e) (token_type e))) evs"

definition detect_pump_and_dump_whale_not_included ::
  "tx list \<Rightarrow> real \<Rightarrow> int \<Rightarrow> int \<Rightarrow> error + detection" where
  "detect_pump_and_dump_whale_not_included transactions_df pump_threshold_value
       pump_threshold_interval interval_blocks =
     (let df = prepare transactions_df interval_blocks in
      case detect_groups pump_threshold_value pump_threshold_interval
             (grouped (interval_sums df)) of
        Inl e \<Rightarrow> Inl e
      | Inr (pumps, dumps) \<Rightarrow>
          Inr \<lparr>pump_intervals = pumps, dump_intervals = dumps,
               pump_details = details df pumps, dump_details = details df dumps\<rparr>)"

text \<open>
  The values the loop body reads at position \<open>i\<close> when both positions lie inside the
  group: lines 129-131 and the dictionary of lines 134-140, with \<open>iloc\<close> replaced by a
  plain list access.
\<close>

definition position_difference :: "agg list \<Rightarrow> int \<Rightarrow> int \<Rightarrow> real" where
  "position_difference grp pump_threshold_interval i =
     sum_value_eth (grp ! nat (i - 1)) - sum_value_eth (grp ! nat (i - pump_threshold_interval))"

definition event_at :: "string \<Rightarrow> agg list \<Rightarrow> int \<Rightarrow> int \<Rightarrow> event" where
  "event_at tok grp pump_threshold_interval i =
     \<lparr>ev_interval = sum_interval (grp ! nat (i - 1)), token_type = tok,
      current_interval_sum = sum_value_eth (grp ! nat (i - 1)),
      previous_interval_sum = sum_value_eth (grp ! nat (i - pump_threshold_interval)),
      difference = position_difference grp pump_threshold_interval i\<rparr>"

text \<open>
  The difference as the specification words it, for comparison with the one above:
  with positions counted from 1, \<open>sum[i] - sum[i - lookback_intervals]\<close>. Position \<open>p\<close>
  counted from 1 is the list element \<open>p - 1\<close>.
\<close>

definition spec_difference :: "agg list \<Rightarrow> int \<Rightarrow> int \<Rightarrow> real" where
  "spec_difference grp lookback_intervals i =
     sum_value_eth (grp ! nat (i - 1)) - sum_value_eth (grp ! nat (i - lookback_intervals - 1))"

section \<open>Value conversion\<close>

text \<open>
  Line 183 of \<open>pump_n_dump.py\<close>, for one numeric cell of the column \<open>tx_value\<close>:
  \<open>transactions_df["tx_value"] / 1e10\<close>.
\<close>

definition main_tx_value_eth :: "real \<Rightarrow> real" where
  "main_tx_value_eth tx_value = tx_value / 10 ^ 10"

text \<open>
  The shapes a value decoded from JSON can have in Python. Strings are strings of ASCII
  characters; a float is an exact real.
\<close>

datatype pyval =
    PNone
  | PBool bool
  | PInt int
  | PFloat real
  | PStr string
  | PList "pyval list"
  | PDict "(string \<times> pyval) list"

text \<open>
  \<open>int(s, 16)\<close> on an ASCII string, as CPython's \<open>PyLong_FromString\<close> reads it: white
  space around the literal, an optional sign, an optional prefix \<open>0x\<close> or \<open>0X\<close>, then
  digits, with single underscores allowed between digits and after the prefix. Anything
  else raises \<open>ValueError\<close>.
\<close>

definition py_isspace :: "char \<Rightarrow> bool" where
  "py_isspace c = (let n = (of_char c :: nat) in (9 \<le> n \<and> n \<le> 13) \<or> n = 32)"

definition digit_value :: "char \<Rightarrow> nat" where
  "digit_value c =
     (let n = (of_char c :: nat) in
      if 48 \<le> n \<and> n \<le> 57 then n - 48
      else if 97 \<le> n \<and> n \<le> 122 then n - 87
      else if 65 \<le> n \<and> n \<le> 90 then n - 55
      else 37)"

text \<open>
  The digit scan: \<open>prev_underscore\<close> tells whether the character before was an
  underscore. It returns the number read and the rest of the string, or \<open>None\<close> for a
  doubled or trailing underscore.
\<close>

fun scan_digits :: "nat \<Rightarrow> bool \<Rightarrow> int \<Rightarrow> string \<Rightarrow> (int \<times> string) option" where
  "scan_digits base prev_underscore acc [] =
     (if prev_underscore then None else Some (acc, []))"
| "scan_digits base prev_underscore acc (c # cs) =
     (if c = CHR ''_'' then
        (if prev_underscore then None else scan_digits base True acc cs)
      else if digit_value c < base then
        scan_digits base False (acc * int base + int (digit_value c)) cs
      else if prev_underscore then None
      else Some (acc, c # cs))"

definition int16 :: "string \<Rightarrow> error + int" where
  "int16 s =
     (let s1 = dropWhile py_isspace s;
          sign = (if take 1 s1 = ''-'' then - 1 else (1::int));
          s2 = (if take 1 s1 = ''+'' \<or> take 1 s1 = ''-'' then drop 1 s1 else s1);
          s3 = (if take 2 s2 = ''0x'' \<or> take 2 s2 = ''0X''
                then (if take 1 (drop 2 s2) = ''_'' then drop 3 s2 else drop 2 s2)
                else s2)
      in if take 1 s3 = ''_'' then Inl ValueError
         else (case scan_digits 16 False 0 s3 of
                 None \<Rightarrow> Inl ValueError
               | Some (n, rest) \<Rightarrow>
                   if rest = s3 then Inl ValueError
                   else if dropWhile py_isspace rest \<noteq> [] then Inl ValueError
                   else Inr (sign * n)))"

text \<open>
  \<open>a / b\<close> on two Python integers, \<open>b\<close> not zero: the quotient as a float, or
  \<open>OverflowError\<close> when the quotient rounds to no finite double, that is from
  \<open>2^1024 - 2^970\<close> on in absolute value.
\<close>

definition int_true_div :: "int \<Rightarrow> int \<Rightarrow> error + real" where
  "int_true_div a b =
     (let q = real_of_int a / real_of_int b
      in if \<bar>q\<bar> \<ge> 2 ^ 1024 - 2 ^ 970 then Inl OverflowError else Inr q)"

definition startswith :: "string \<Rightarrow> string \<Rightarrow> bool" where
  "startswith s p = (take (length p) s = p)"

text \<open>
  \<open>safe_eth_conversion\<close> of \<open>modify_transactions.py\<close> (lines 33-38). A Python \<open>bool\<close>
  is an instance of \<open>int\<close>, so it takes the numeric branch.
\<close>

definition safe_eth_conversion :: "pyval \<Rightarrow> error + real" where
  "safe_eth_conversion v =
     (case v of
        PStr s \<Rightarrow>
          if startswith s ''0x'' then
            (case int16 s of Inl e \<Rightarrow> Inl e | Inr n \<Rightarrow> int_true_div n (10 ^ 18))
          else Inr 0
      | PInt n \<Rightarrow> int_true_div n (10 ^ 18)
      | PBool b \<Rightarrow> int_true_div (if b then 1 else 0) (10 ^ 18)
      | PFloat x \<Rightarrow> Inr (x / 10 ^ 18)
      | _ \<Rightarrow> Inr 0)"

text \<open>
  Line 40, for one row: \<open>safe_eth_conversion(tx.get("value", "0"))\<close>, the transaction
  being a dictionary.
\<close>

definition transaction_value :: "(string \<rightharpoonup> pyval) \<Rightarrow> error + real" where
  "transaction_value tx =
     safe_eth_conversion (case tx ''value'' of None \<Rightarrow> PStr ''0'' | Some v \<Rightarrow> v)"

section \<open>The line splitter of \<open>split_data.py\<close>\<close>

text \<open>
  A file is the list of its bytes, taken to be valid UTF-8. The input is opened in text
  mode with Python's universal newlines: every \<open>\r\n\<close> and every other \<open>\r\<close> is read
  as \<open>\n\<close>, and iterating over the file yields the text cut after each \<open>\n\<close>. The
  output is written as on a platform whose line separator is \<open>\n\<close>.
\<close>

definition CR :: char where
  "CR = CHR 0x0D"

definition LF :: char where
  "LF = CHR 0x0A"

fun universal_newlines :: "string \<Rightarrow> string" where
  "universal_newlines [] = []"
| "universal_newlines [c] = (if c = CR then [LF] else [c])"
| "universal_newlines (c # d # cs) =
     (if c = CR then
        (if d = LF then LF # universal_newlines cs else LF # universal_newlines (d # cs))
      else c # universal_newlines (d # cs))"

fun cut_lines :: "string \<Rightarrow> string \<Rightarrow> string list" where
  "cut_lines cur [] = (if cur = [] then [] else [cur])"
| "cut_lines cur (c # cs) =
     (if c = LF then (cur @ [c]) # cut_lines [] cs else cut_lines (cur @ [c]) cs)"

definition text_lines :: "string \<Rightarrow> string list" where
  "text_lines content = cut_lines [] (universal_newlines content)"

text \<open>
  The state of \<open>split_jsonl\<close>: the two counters, the files already closed (each with the
  index in its name), and the text written so far to the open file.
\<close>

record split_state =
  chunk_index :: nat
  current_chunk_size :: int
  closed_files :: "(nat \<times> string) list"
  outfile :: string

text \<open>Lines 11-22, the loop body for one line.\<close>

definition split_step :: "int \<Rightarrow> split_state \<Rightarrow> string \<Rightarrow> split_state" where
  "split_step chunk_size st line =
     (let line_size = int (length line);
          st1 = (if current_chunk_size st + line_size > chunk_size
                 then \<lparr>chunk_index = chunk_index st + 1, current_chunk_size = 0,
                       closed_files = closed_files st @ [(chunk_index st, outfile st)],
                       outfile = []\<rparr>
                 else st)
      in st1\<lparr>outfile := outfile st1 @ line,
              current_chunk_size := current_chunk_size st1 + line_size\<rparr>)"

text \<open>The files on disk once the open file is closed too (line 24).\<close>

definition files_of :: "split_state \<Rightarrow> (nat \<times> string) list" where
  "files_of st = closed_files st @ [(chunk_index st, outfile st)]"

text \<open>
  Lines 4-24: the files written, each with its index, in the order they were opened.
\<close>

definition split_jsonl :: "string \<Rightarrow> int \<Rightarrow> (nat \<times> string) list" where
  "split_jsonl content chunk_size =
     files_of (foldl (split_step chunk_size)
       \<lparr>chunk_index = 1, current_chunk_size = 0, closed_files = [], outfile = []\<rparr>
       (text_lines content))"

section \<open>Example data\<close>

text \<open>The group of one token, from its interval numbers and its sums.\<close>

definition sums_group :: "string \<Rightarrow> int list \<Rightarrow> real list \<Rightarrow> agg list" where
  "sums_group tok ivs vs =
     map (\<lambda>(i, v). \<lparr>sum_interval = i, sum_token_type = tok, sum_value_eth = v\<rparr>) (zip ivs vs)"

text \<open>
  Four transactions of one token in the intervals 1, 2 and 3 (50 blocks each), one of
  them above the whale cap.
\<close>

definition example_whale :: tx where
  "example_whale =
     \<lparr>tx_hash = ''w'', block_number = 100, block_timestamp = 0,
      tx_token_type = Some ''T'', tx_value_eth = 600\<rparr>"

definition example_df :: "tx list" where
  "example_df =
     [example_whale,
      \<lparr>tx_hash = ''c'', block_number = 101, block_timestamp = 0,
       tx_token_type = Some ''T'', tx_value_eth = 100\<rparr>,
      \<lparr>tx_hash = ''a'', block_number = 0, block_timestamp = 0,
       tx_token_type = Some ''T'', tx_value_eth = 10\<rparr>,
      \<lparr>tx_hash = ''b'', block_number = 50, block_timestamp = 0,
       tx_token_type = Some ''T'', tx_value_eth = 10\<rparr>]"

definition example_pump :: event where
  "example_pump =
     \<lparr>ev_interval = 3, token_type = ''T'', current_interval_sum = 100,
      previous_interval_sum = 10, difference = 90\<rparr>"

section \<open>The detector, position by position\<close>

lemma iloc_in_range:
  "0 \<le> i \<Longrightarrow> i < int (length xs) \<Longrightarrow> iloc xs i = Inr (xs ! nat i)"
  by (simp add: iloc_def)

lemma loop_body_in_range:
  assumes "1 \<le> L" "L \<le> i" "i \<le> int (length grp)"
  shows "loop_body thr L tok grp i acc =
    Inr (if position_difference grp L i > thr
           then (fst acc @ [event_at tok grp L i], snd acc)
         else if position_difference grp L i < - thr
           then (fst acc, snd acc @ [event_at tok grp L i])
         else acc)"
proof -
  have cur: "iloc grp (i - 1) = Inr (grp ! nat (i - 1))"
    using assms by (intro iloc_in_range) auto
  have prev: "iloc grp (i - L) = Inr (grp ! nat (i - L))"
    using assms by (intro iloc_in_range) auto
  show ?thesis
    by (simp add: loop_body_def cur prev event_at_def position_difference_def Let_def)
qed

lemma for_each_loop_body:
  assumes "1 \<le> L" "\<forall>i \<in> set js. L \<le> i \<and> i \<le> int (length grp)"
  shows "for_each (loop_body thr L tok grp) js acc =
    Inr (fst acc @ map (event_at tok grp L)
           (filter (\<lambda>i. position_difference grp L i > thr) js),
         snd acc @ map (event_at tok grp L)
           (filter (\<lambda>i. \<not> position_difference grp L i > thr \<and>
                        position_difference grp L i < - thr) js))"
  using assms
proof (induction js arbitrary: acc)
  case Nil
  then show ?case by simp
next
  case (Cons j js)
  then show ?case
    by (simp add: loop_body_in_range)
qed

lemma for_each_append:
  "for_each body (xs @ ys) s =
     (case for_each body xs s of Inl e \<Rightarrow> Inl e | Inr s' \<Rightarrow> for_each body ys s')"
  by (induction xs arbitrary: s) (auto split: sum.splits)

lemma detect_group_short:
  "int (length (snd g)) < L \<Longrightarrow> detect_group thr L g acc = Inr acc"
  by (simp add: detect_group_def)

lemma upto_3_3: "[3..3] = [3::int]"
  by (simp add: upto.simps)

lemma upto_3_4: "[3..4] = [3, 4::int]"
  by (simp add: upto.simps)

text \<open>
  C1, as amended. For a lookback of at least 1 and a threshold that is not negative, the
  detector raises nothing on a group of \<open>N\<close> aggregates and visits the positions
  \<open>i = lookback .. N\<close> (counted from 1). At position \<open>i\<close> the difference is the sum at
  position \<open>i\<close> minus the sum at position \<open>i - lookback + 1\<close>: the first and the last of
  \<open>lookback\<close> consecutive aggregates. The PUMP events are exactly those of the positions
  whose difference exceeds the threshold, the DUMP events exactly those of the positions
  whose difference is below minus the threshold, each carrying the interval number of
  the aggregate at position \<open>i\<close>; no other position emits anything.
\<close>

theorem detect_group_positions:
  assumes "1 \<le> L" "0 \<le> thr"
  shows "detect_group thr L (tok, grp) ([], []) =
    Inr (map (event_at tok grp L)
           (filter (\<lambda>i. position_difference grp L i > thr) [L .. int (length grp)]),
         map (event_at tok grp L)
           (filter (\<lambda>i. position_difference grp L i < - thr) [L .. int (length grp)]))"
proof -
  have "(\<lambda>i. \<not> position_difference grp L i > thr \<and> position_difference grp L i < - thr)
      = (\<lambda>i. position_difference grp L i < - thr)"
    using assms(2) by (intro ext) auto
  then show ?thesis
    using assms(1) by (simp add: detect_group_def for_each_loop_body)
qed

theorem detect_group_positions_witness:
  "(1::int) \<le> 3 \<and> (0::real) \<le> 2500 \<and>
   detect_group 2500 3 (''T'', sums_group ''T'' [1, 2, 3, 4] [3000, 100, 100, 3000]) ([], []) =
     Inr ([\<lparr>ev_interval = 4, token_type = ''T'', current_interval_sum = 3000,
            previous_interval_sum = 100, difference = 2900\<rparr>],
          [\<lparr>ev_interval = 3, token_type = ''T'', current_interval_sum = 100,
            previous_interval_sum = 3000, difference = - 2900\<rparr>])"
proof -
  have h1: "(1::int) \<le> 3" and h2: "(0::real) \<le> 2500"
    by simp_all
  show ?thesis
    using detect_group_positions [OF h1 h2, of "''T''"
        "sums_group ''T'' [1, 2, 3, 4] [3000, 100, 100, 3000]"]
    by (simp add: sums_group_def upto_3_4 event_at_def position_difference_def)
qed

text \<open>
  C1 as the specification states it fails: in the group with the sums 3000, 100, 100,
  3000 and a lookback of 3, the code emits a PUMP event at position 4, while the stated
  difference \<open>sum[4] - sum[1]\<close> is 0.
\<close>

theorem spec_difference_counterexample:
  "detect_group 2500 3 (''T'', sums_group ''T'' [1, 2, 3, 4] [3000, 100, 100, 3000]) ([], []) =
     Inr ([\<lparr>ev_interval = 4, token_type = ''T'', current_interval_sum = 3000,
            previous_interval_sum = 100, difference = 2900\<rparr>],
          [\<lparr>ev_interval = 3, token_type = ''T'', current_interval_sum = 100,
            previous_interval_sum = 3000, difference = - 2900\<rparr>])
   \<and> spec_difference (sums_group ''T'' [1, 2, 3, 4] [3000, 100, 100, 3000]) 3 4 = 0
   \<and> \<not> spec_difference (sums_group ''T'' [1, 2, 3, 4] [3000, 100, 100, 3000]) 3 4 > 2500"
  by (simp add: detect_group_def loop_body_def iloc_def upto_3_4 sums_group_def
        spec_difference_def)

text \<open>
  C3, as amended. With a lookback of 3 and a threshold of 2500, the sums 3000, 100, 100,
  100 yield exactly one DUMP event and no PUMP event. The event is emitted at position
  3, with the interval number of the third aggregate and the difference
  \<open>100 - 3000 = -2900\<close>; position 4 compares 100 with 100 and emits nothing.
\<close>

theorem dump_example:
  "detect_group 2500 3 (tok, sums_group tok [i1, i2, i3, i4] [3000, 100, 100, 100]) ([], []) =
     Inr ([], [\<lparr>ev_interval = i3, token_type = tok, current_interval_sum = 100,
                previous_interval_sum = 3000, difference = - 2900\<rparr>])
   \<and> [3 .. int (length (sums_group tok [i1, i2, i3, i4] [3000, 100, 100, 100]))] = [3, 4]
   \<and> loop_body 2500 3 tok (sums_group tok [i1, i2, i3, i4] [3000, 100, 100, 100]) 3 ([], []) =
     Inr ([], [\<lparr>ev_interval = i3, token_type = tok, current_interval_sum = 100,
                previous_interval_sum = 3000, difference = - 2900\<rparr>])
   \<and> loop_body 2500 3 tok (sums_group tok [i1, i2, i3, i4] [3000, 100, 100, 100]) 4 ([], []) =
     Inr ([], [])"
  by (simp add: detect_group_def loop_body_def iloc_def upto_3_4 sums_group_def)

text \<open>
  C3 as the specification states it fails: no run on these sums ends with a single DUMP
  event carrying the interval number of position 4.
\<close>

theorem dump_example_counterexample:
  "\<not> (\<exists>ev. detect_group 2500 3
            (''T'', sums_group ''T'' [1, 2, 3, 4] [3000, 100, 100, 100]) ([], []) = Inr ([], [ev])
          \<and> ev_interval ev = sum_interval (sums_group ''T'' [1, 2, 3, 4] [3000, 100, 100, 100] ! 3))"
  by (simp add: detect_group_def loop_body_def iloc_def upto_3_4 sums_group_def)

text \<open>
  C4. With a lookback of 3 and a threshold of 2500, the sums 100, 100, 100, 3000 yield
  exactly one PUMP event and no DUMP event. It is emitted at position 4, with the
  interval number of the fourth aggregate and the difference \<open>3000 - 100 = 2900\<close>.
  Positions 1 and 2 are not visited and position 3 emits nothing.
\<close>

theorem pump_example:
  "detect_group 2500 3 (tok, sums_group tok [i1, i2, i3, i4] [100, 100, 100, 3000]) ([], []) =
     Inr ([\<lparr>ev_interval = i4, token_type = tok, current_interval_sum = 3000,
            previous_interval_sum = 100, difference = 2900\<rparr>], [])
   \<and> [3 .. int (length (sums_group tok [i1, i2, i3, i4] [100, 100, 100, 3000]))] = [3, 4]
   \<and> loop_body 2500 3 tok (sums_group tok [i1, i2, i3, i4] [100, 100, 100, 3000]) 3 ([], []) =
     Inr ([], [])
   \<and> loop_body 2500 3 tok (sums_group tok [i1, i2, i3, i4] [100, 100, 100, 3000]) 4 ([], []) =
     Inr ([\<lparr>ev_interval = i4, token_type = tok, current_interval_sum = 3000,
            previous_interval_sum = 100, difference = 2900\<rparr>], [])"
  by (simp add: detect_group_def loop_body_def iloc_def upto_3_4 sums_group_def)

text \<open>
  C8. A group with fewer aggregates than the lookback leaves both event lists as they
  were and raises nothing, and the run over all groups is the run over the other groups.
\<close>

theorem short_partition:
  assumes "int (length (snd g)) < L"
  shows "detect_group thr L g acc = Inr acc
       \<and> detect_groups thr L (gs1 @ g # gs2) = detect_groups thr L (gs1 @ gs2)"
  using assms
  by (auto simp: detect_groups_def for_each_append detect_group_short split: sum.splits)

theorem short_partition_witness:
  "int (length (snd (''S'', sums_group ''S'' [1, 2] [10, 5000]))) < 3
   \<and> detect_group 2500 3 (''S'', sums_group ''S'' [1, 2] [10, 5000]) ([], []) = Inr ([], [])
   \<and> detect_groups 2500 3
        ([] @ (''S'', sums_group ''S'' [1, 2] [10, 5000])
            # [(''T'', sums_group ''T'' [1, 2, 3, 4] [100, 100, 100, 3000])])
     = detect_groups 2500 3 ([] @ [(''T'', sums_group ''T'' [1, 2, 3, 4] [100, 100, 100, 3000])])"
proof -
  have h: "int (length (snd (''S'', sums_group ''S'' [1, 2] [10, 5000]))) < 3"
    by (simp add: sums_group_def)
  show ?thesis
    using h short_partition [OF h, of 2500 "([], [])" "[]"
        "[(''T'', sums_group ''T'' [1, 2, 3, 4] [100, 100, 100, 3000])]"]
    by simp
qed

section \<open>Intervals, whales and evidence\<close>

lemma prepare_example: "prepare example_df 50 =
  [\<lparr>tx_hash = ''a'', block_number = 0, block_timestamp = 0,
    tx_token_type = Some ''T'', tx_value_eth = 10, interval = 1\<rparr>,
   \<lparr>tx_hash = ''b'', block_number = 50, block_timestamp = 0,
    tx_token_type = Some ''T'', tx_value_eth = 10, interval = 2\<rparr>,
   \<lparr>tx_hash = ''c'', block_number = 101, block_timestamp = 0,
    tx_token_type = Some ''T'', tx_value_eth = 100, interval = 3\<rparr>]"
  by (simp add: prepare_def example_df_def example_whale_def whale_cap_def add_interval_def
        interval_of_def wrap64_def)

lemma grouped_example: "grouped (interval_sums (prepare example_df 50)) =
  [(''T'', sums_group ''T'' [1, 2, 3] [10, 10, 100])]"
  unfolding prepare_example
  by (simp add: interval_sums_def group_keys_def List.map_filter_def less_eq_prod_def
        less_prod_def grouped_def sums_group_def)

text \<open>
  A whole run: the whale is dropped, the three remaining sums are 10, 10 and 100, and
  with a threshold of 50 the third interval is flagged as a pump.
\<close>

lemma run_example:
  "detect_pump_and_dump_whale_not_included example_df 50 3 50 =
     Inr \<lparr>pump_intervals = [example_pump], dump_intervals = [],
          pump_details = [(example_pump, prepare example_df 50)], dump_details = []\<rparr>"
  unfolding detect_pump_and_dump_whale_not_included_def Let_def grouped_example
  by (simp add: detect_groups_def detect_group_def loop_body_def iloc_def upto_3_3
        sums_group_def details_def relevant_transactions_def prepare_example example_pump_def)

lemma details_of_run:
  "detect_pump_and_dump_whale_not_included df thr L k = Inr d \<Longrightarrow>
     pump_details d = details (prepare df k) (pump_intervals d) \<and>
     dump_details d = details (prepare df k) (dump_intervals d)"
  by (auto simp: detect_pump_and_dump_whale_not_included_def Let_def split: sum.splits)

lemma sum_list_insort_key:
  "sum_list (map f (insort_key g y ys)) = f y + sum_list (map f ys)"
  for f :: "'a \<Rightarrow> real"
  by (induction ys) auto

lemma sum_list_sort_key:
  "sum_list (map f (sort_key g ys)) = sum_list (map f ys)"
  for f :: "'a \<Rightarrow> real"
  by (induction ys) (auto simp: sum_list_insort_key)

lemma key_sum:
  "sum_list (map tx_value_eth
     (filter (\<lambda>r. interval r = i \<and> tx_token_type r = Some tok) (prepare df k)))
   = sum_list (map tx_value_eth (filter (\<lambda>t. tx_value_eth t < whale_cap \<and>
         interval_of (block_number t) k = i \<and> tx_token_type t = Some tok) df))"
proof -
  have "map tx_value_eth
      (filter (\<lambda>r. interval r = i \<and> tx_token_type r = Some tok) (prepare df k))
    = map tx_value_eth (sort_key block_number (filter (\<lambda>t. tx_value_eth t < whale_cap \<and>
         interval_of (block_number t) k = i \<and> tx_token_type t = Some tok) df))"
    by (simp add: prepare_def filter_map o_def add_interval_def filter_sort conj_commute
          conj_left_commute)
  then show ?thesis
    by (simp add: sum_list_sort_key)
qed

lemma prepare_without_whales:
  "prepare (filter (\<lambda>t. \<not> whale_cap \<le> tx_value_eth t) df) k = prepare df k"
  by (simp add: prepare_def filter_sort not_le)

text \<open>
  C5, as amended. The rows printed for a flagged interval \<open>i\<close> of a token are exactly
  the transactions below the whale cap whose token is that token and whose interval lies
  between \<open>i - 2\<close> and \<open>i\<close>; and what a run prints for each of its events is this
  selection at the event's interval and token. Transactions at or above the whale cap
  are never among them.
\<close>

theorem evidence_rows:
  "(r \<in> set (relevant_transactions (prepare df k) i tok) \<longleftrightarrow>
      (\<exists>t \<in> set df. r = add_interval k t \<and> tx_value_eth t < whale_cap \<and>
         tx_token_type t = Some tok \<and>
         i - 2 \<le> interval_of (block_number t) k \<and> interval_of (block_number t) k \<le> i))
   \<and> (detect_pump_and_dump_whale_not_included df thr L k = Inr d \<longrightarrow>
        pump_details d =
          map (\<lambda>e. (e, relevant_transactions (prepare df k) (ev_interval e) (token_type e)))
            (pump_intervals d) \<and>
        dump_details d =
          map (\<lambda>e. (e, relevant_transactions (prepare df k) (ev_interval e) (token_type e)))
            (dump_intervals d))"
proof -
  have "r \<in> set (relevant_transactions (prepare df k) i tok) \<longleftrightarrow>
      (\<exists>t \<in> set df. r = add_interval k t \<and> tx_value_eth t < whale_cap \<and>
         tx_token_type t = Some tok \<and>
         i - 2 \<le> interval_of (block_number t) k \<and> interval_of (block_number t) k \<le> i)"
    by (auto simp: relevant_transactions_def prepare_def add_interval_def)
  then show ?thesis
    using details_of_run [of df thr L k d] by (simp add: details_def)
qed

theorem evidence_rows_witness:
  "detect_pump_and_dump_whale_not_included example_df 50 3 50 =
     Inr \<lparr>pump_intervals = [example_pump], dump_intervals = [],
          pump_details = [(example_pump, prepare example_df 50)], dump_details = []\<rparr>
   \<and> [(example_pump, prepare example_df 50)] =
       [(example_pump, relevant_transactions (prepare example_df 50)
           (ev_interval example_pump) (token_type example_pump))]"
  using run_example
    evidence_rows [where df = example_df and k = 50 and thr = 50 and L = 3
      and r = "add_interval 50 example_whale" and i = 3 and tok = "''T''"
      and d = "\<lparr>pump_intervals = [example_pump], dump_intervals = [],
          pump_details = [(example_pump, prepare example_df 50)], dump_details = []\<rparr>"]
  by simp

text \<open>
  C5 as the specification states it fails: the whale of the example belongs to the
  flagged token and lies inside the three intervals of the event, and is not among the
  rows retrieved for it.
\<close>

theorem evidence_counterexample:
  "\<exists>d rows. detect_pump_and_dump_whale_not_included example_df 50 3 50 = Inr d
     \<and> pump_details d = [(example_pump, rows)]
     \<and> example_whale \<in> set example_df
     \<and> tx_token_type example_whale = Some (token_type example_pump)
     \<and> ev_interval example_pump - 2 \<le> interval_of (block_number example_whale) 50
     \<and> interval_of (block_number example_whale) 50 \<le> ev_interval example_pump
     \<and> add_interval 50 example_whale \<notin> set rows"
  unfolding run_example prepare_example
  by (simp add: example_df_def example_whale_def example_pump_def interval_of_def
        wrap64_def add_interval_def)

text \<open>
  C6. Removing every transaction at or above the whale cap from the input changes no
  per-(interval, token) sum; each sum is the sum of the values below the cap among the
  transactions of that interval and token; and the whole detection, for any threshold
  and lookback, is the same with and without the whales.
\<close>

theorem whales_do_not_count:
  "interval_sums (prepare (filter (\<lambda>t. \<not> whale_cap \<le> tx_value_eth t) df) k) =
     interval_sums (prepare df k)
   \<and> interval_sums (prepare df k) =
       map (\<lambda>(i, tok).
             \<lparr>sum_interval = i, sum_token_type = tok,
              sum_value_eth = sum_list (map tx_value_eth
                (filter (\<lambda>t. tx_value_eth t < whale_cap \<and>
                   interval_of (block_number t) k = i \<and> tx_token_type t = Some tok) df))\<rparr>)
         (group_keys (prepare df k))
   \<and> detect_pump_and_dump_whale_not_included
         (filter (\<lambda>t. \<not> whale_cap \<le> tx_value_eth t) df) thr L k =
       detect_pump_and_dump_whale_not_included df thr L k"
proof -
  have "interval_sums (prepare df k) =
       map (\<lambda>(i, tok).
             \<lparr>sum_interval = i, sum_token_type = tok,
              sum_value_eth = sum_list (map tx_value_eth
                (filter (\<lambda>t. tx_value_eth t < whale_cap \<and>
                   interval_of (block_number t) k = i \<and> tx_token_type t = Some tok) df))\<rparr>)
         (group_keys (prepare df k))"
    unfolding interval_sums_def by (rule map_cong) (auto simp: key_sum)
  then show ?thesis
    by (simp add: prepare_without_whales detect_pump_and_dump_whale_not_included_def)
qed

lemma wrap64_id: "- (2 ^ 63) \<le> x \<Longrightarrow> x < 2 ^ 63 \<Longrightarrow> wrap64 x = x"
  by (simp add: wrap64_def)

lemma interval_of_fits:
  assumes "0 < k" "0 \<le> b" "b div k + 1 < 2 ^ 63"
  shows "interval_of b k = b div k + 1"
proof -
  have "0 \<le> b div k"
    using assms(1,2) by (simp add: pos_imp_zdiv_nonneg_iff)
  then have "- (2 ^ 63) \<le> b div k + 1"
    by simp
  then show ?thesis
    using assms(3) by (simp add: interval_of_def wrap64_id)
qed

text \<open>
  C7, as amended. For a positive interval size and a block number that is not negative
  and whose interval fits a 64-bit signed integer (the floor of the quotient plus one is
  below \<open>2^63\<close>), the interval is the floor of the quotient plus one, it is at least 1,
  and no larger block number whose interval fits has a smaller interval. With 50 blocks
  per interval the blocks 0 and 49 lie in interval 1 and block 50 in interval 2.
\<close>

theorem interval_of_floor:
  assumes "0 < k" "0 \<le> b" "b div k + 1 < 2 ^ 63"
  shows "interval_of b k = \<lfloor>real_of_int b / real_of_int k\<rfloor> + 1
    \<and> 1 \<le> interval_of b k
    \<and> (\<forall>b'. b \<le> b' \<and> b' div k + 1 < 2 ^ 63 \<longrightarrow> interval_of b k \<le> interval_of b' k)
    \<and> interval_of 0 50 = 1 \<and> interval_of 49 50 = 1 \<and> interval_of 50 50 = 2"
proof -
  have eq: "interval_of b k = b div k + 1"
    using assms by (rule interval_of_fits)
  have floor: "interval_of b k = \<lfloor>real_of_int b / real_of_int k\<rfloor> + 1"
    by (simp add: eq floor_divide_of_int_eq)
  have least: "1 \<le> interval_of b k"
    using assms(1,2) by (simp add: eq pos_imp_zdiv_nonneg_iff)
  have mono: "interval_of b k \<le> interval_of b' k"
    if "b \<le> b'" "b' div k + 1 < 2 ^ 63" for b'
  proof -
    have "0 \<le> b'"
      using assms(2) that(1) by simp
    then have "interval_of b' k = b' div k + 1"
      using assms(1) that(2) by (intro interval_of_fits)
    then show ?thesis
      using that(1) assms(1) by (simp add: eq zdiv_mono1)
  qed
  have examples: "interval_of 0 50 = 1 \<and> interval_of 49 50 = 1 \<and> interval_of 50 50 = 2"
    by (simp add: interval_of_def wrap64_def)
  show ?thesis
    using floor least mono examples by blast
qed

theorem interval_of_floor_witness:
  "(0::int) < 50 \<and> (0::int) \<le> 120 \<and> (120::int) div 50 + 1 < 2 ^ 63
   \<and> interval_of 120 50 = \<lfloor>real_of_int 120 / real_of_int 50\<rfloor> + 1
   \<and> 1 \<le> interval_of 120 50
   \<and> (120::int) \<le> 150 \<and> (150::int) div 50 + 1 < 2 ^ 63
   \<and> interval_of 120 50 \<le> interval_of 150 50"
proof -
  have h1: "(0::int) < 50" and h2: "(0::int) \<le> 120"
    and h3: "(120::int) div 50 + 1 < 2 ^ 63" and h4: "(150::int) div 50 + 1 < 2 ^ 63"
    by simp_all
  have "(120::int) \<le> 150 \<and> (150::int) div 50 + 1 < 2 ^ 63
      \<longrightarrow> interval_of 120 50 \<le> interval_of 150 50"
    using interval_of_floor [OF h1 h2 h3] by blast
  then show ?thesis
    using h3 h4 interval_of_floor [OF h1 h2 h3] by simp
qed

text \<open>
  C7 as the specification states it fails at the top of the 64-bit range: with one
  block per interval, block \<open>2^63 - 1\<close> lands in interval \<open>-2^63\<close>, which is below 1
  and below the interval of the block before it.
\<close>

theorem interval_of_counterexample:
  "(0::int) \<le> 9223372036854775807
   \<and> interval_of 9223372036854775807 1 = - 9223372036854775808
   \<and> \<not> 1 \<le> interval_of 9223372036854775807 1
   \<and> (9223372036854775806::int) \<le> 9223372036854775807
   \<and> interval_of 9223372036854775806 1 = 9223372036854775807
   \<and> \<not> interval_of 9223372036854775806 1 \<le> interval_of 9223372036854775807 1"
  by (simp add: interval_of_def wrap64_def)

section \<open>Properties of the value conversion\<close>

text \<open>
  Where the conversion of \<open>modify_transactions.py\<close> returns, it behaves as described: a
  hexadecimal string and the integer it denotes give the same result, and a missing
  value, \<open>None\<close>, a list, a dictionary or a string without the prefix give 0.
\<close>

lemma hex_agrees_with_number:
  "startswith s ''0x'' \<Longrightarrow> int16 s = Inr n \<Longrightarrow>
     safe_eth_conversion (PStr s) = safe_eth_conversion (PInt n)"
  by (simp add: safe_eth_conversion_def)

lemma hex_example:
  "safe_eth_conversion (PStr ''0xde0b6b3a7640000'') = Inr 1
   \<and> safe_eth_conversion (PInt 1000000000000000000) = Inr 1"
  by (simp add: safe_eth_conversion_def startswith_def int16_def py_isspace_def
        digit_value_def int_true_div_def)

lemma other_shapes:
  "safe_eth_conversion PNone = Inr 0"
  "safe_eth_conversion (PList xs) = Inr 0"
  "safe_eth_conversion (PDict kvs) = Inr 0"
  "\<not> startswith s ''0x'' \<Longrightarrow> safe_eth_conversion (PStr s) = Inr 0"
  "transaction_value Map.empty = Inr 0"
  by (simp_all add: safe_eth_conversion_def transaction_value_def startswith_def)

lemma bool_is_number: "safe_eth_conversion (PBool True) = Inr (1 / 10 ^ 18)"
  by (simp add: safe_eth_conversion_def int_true_div_def)

lemma overflow_example: "safe_eth_conversion (PInt (10 ^ 400)) = Inl OverflowError"
  by (simp add: safe_eth_conversion_def int_true_div_def)

text \<open>
  C2. \<open>pump_n_dump.py\<close> divides by \<open>10^10\<close>, not by \<open>10^18\<close>: a value of \<open>10^18\<close> wei, one
  ether, becomes \<open>10^8\<close>, while \<open>safe_eth_conversion\<close> of \<open>modify_transactions.py\<close>
  turns the same value into 1.
\<close>

theorem main_tx_value_eth_divisor:
  "main_tx_value_eth (10 ^ 18) = 10 ^ 8
   \<and> main_tx_value_eth (10 ^ 18) \<noteq> 10 ^ 18 / 10 ^ 18
   \<and> safe_eth_conversion (PInt (10 ^ 18)) = Inr 1"
  by (simp add: main_tx_value_eth_def safe_eth_conversion_def int_true_div_def)

text \<open>
  C9. The conversion raises on a string that starts with \<open>0x\<close> and is no hexadecimal
  literal: \<open>"0x"\<close> and \<open>"0xzz"\<close> end in \<open>ValueError\<close>, also when they arrive as the value
  of a transaction.
\<close>

theorem safe_eth_conversion_raises:
  "safe_eth_conversion (PStr ''0x'') = Inl ValueError
   \<and> safe_eth_conversion (PStr ''0xzz'') = Inl ValueError
   \<and> transaction_value [''value'' \<mapsto> PStr ''0x''] = Inl ValueError"
  by (simp add: transaction_value_def safe_eth_conversion_def startswith_def int16_def
        py_isspace_def digit_value_def)

section \<open>Properties of the line splitter\<close>

lemma concat_cut_lines: "concat (cut_lines cur s) = cur @ s"
  by (induction s arbitrary: cur) auto

lemma concat_text_lines: "concat (text_lines content) = universal_newlines content"
  by (simp add: text_lines_def concat_cut_lines)

lemma universal_newlines_id: "CR \<notin> set s \<Longrightarrow> universal_newlines s = s"
  by (induction s rule: universal_newlines.induct) auto

lemma concat_chunks: "concat (map concat gs) = concat (concat gs)"
  by (induction gs) auto

text \<open>
  The loop keeps the files a concatenation of whole lines: from any state, the lines
  still to come are cut into groups, the first appended to the open file and each of
  the others filling one new file.
\<close>

lemma split_groups:
  "\<exists>g gs. map snd (files_of (foldl (split_step cs) st ls))
       = map snd (closed_files st) @ (outfile st @ concat g) # map concat gs
     \<and> concat (g # gs) = ls"
proof (induction ls arbitrary: st)
  case Nil
  show ?case
    by (rule exI [of _ "[]"], rule exI [of _ "[]"]) (simp add: files_of_def)
next
  case (Cons l ls)
  obtain g gs where h:
    "map snd (files_of (foldl (split_step cs) (split_step cs st l) ls))
       = map snd (closed_files (split_step cs st l)) @
         (outfile (split_step cs st l) @ concat g) # map concat gs"
    "concat (g # gs) = ls"
    using Cons.IH [of "split_step cs st l"] by blast
  show ?case
  proof (cases "current_chunk_size st + int (length l) > cs")
    case True
    then have "closed_files (split_step cs st l) = closed_files st @ [(chunk_index st, outfile st)]"
      "outfile (split_step cs st l) = l"
      by (simp_all add: split_step_def Let_def)
    with h show ?thesis
      by (intro exI [of _ "[]"] exI [of _ "(l # g) # gs"]) simp
  next
    case False
    then have "closed_files (split_step cs st l) = closed_files st"
      "outfile (split_step cs st l) = outfile st @ l"
      by (simp_all add: split_step_def Let_def)
    with h show ?thesis
      by (intro exI [of _ "l # g"] exI [of _ "gs"]) simp
  qed
qed

lemma split_step_index:
  assumes "map fst (closed_files st) = [1 ..< chunk_index st]" "1 \<le> chunk_index st"
  shows "map fst (closed_files (split_step cs st l)) = [1 ..< chunk_index (split_step cs st l)]
       \<and> 1 \<le> chunk_index (split_step cs st l)"
  using assms by (simp add: split_step_def Let_def)

lemma split_index:
  assumes "map fst (closed_files st) = [1 ..< chunk_index st]" "1 \<le> chunk_index st"
  shows "map fst (closed_files (foldl (split_step cs) st ls))
           = [1 ..< chunk_index (foldl (split_step cs) st ls)]
       \<and> 1 \<le> chunk_index (foldl (split_step cs) st ls)"
  using assms
proof (induction ls arbitrary: st)
  case Nil
  then show ?case by simp
next
  case (Cons l ls)
  then show ?case
    using split_step_index [of st cs l] by simp
qed

lemma split_jsonl_index:
  "map fst (split_jsonl content cs) = [1 ..< Suc (length (split_jsonl content cs))]"
proof -
  let ?st = "foldl (split_step cs)
       \<lparr>chunk_index = 1, current_chunk_size = 0, closed_files = [], outfile = []\<rparr>
       (text_lines content)"
  have inv: "map fst (closed_files ?st) = [1 ..< chunk_index ?st] \<and> 1 \<le> chunk_index ?st"
    by (rule split_index) simp_all
  then have len: "length (closed_files ?st) = chunk_index ?st - 1"
    by (metis length_map length_upt)
  have "map fst (files_of ?st) = [1 ..< Suc (chunk_index ?st)]"
    using inv by (simp add: files_of_def)
  moreover have "length (files_of ?st) = chunk_index ?st"
    using inv len by (simp add: files_of_def)
  ultimately show ?thesis
    by (simp add: split_jsonl_def)
qed

lemma split_jsonl_groups:
  "\<exists>groups. concat groups = text_lines content
      \<and> map snd (split_jsonl content cs) = map concat groups"
proof -
  obtain g gs where h:
    "map snd (split_jsonl content cs) = concat g # map concat gs"
    "concat (g # gs) = text_lines content"
    using split_groups [of cs
        "\<lparr>chunk_index = 1, current_chunk_size = 0, closed_files = [], outfile = []\<rparr>"
        "text_lines content"]
    by (auto simp: split_jsonl_def)
  show ?thesis
    by (rule exI [of _ "g # gs"]) (use h in simp)
qed

lemma split_example:
  "split_jsonl (''ab'' @ [LF] @ ''cd'' @ [LF] @ ''e'') 4 =
     [(1, ''ab'' @ [LF]), (2, ''cd'' @ [LF] @ ''e'')]"
  by (simp add: split_jsonl_def text_lines_def split_step_def files_of_def CR_def LF_def)

text \<open>
  C10, as amended. The files are numbered 1, 2, ... in the order they are written. The
  lines read from the input are cut into consecutive groups, one group per file, and
  each file is the concatenation of its group: every line is written whole into exactly
  one file, in order. Concatenating the files in index order gives the input as text
  mode reads it, every \<open>\r\n\<close> and every other \<open>\r\<close> replaced by \<open>\n\<close>; for an input
  without a carriage return this is the input itself.
\<close>

theorem split_jsonl_lines:
  "map fst (split_jsonl content cs) = [1 ..< Suc (length (split_jsonl content cs))]
   \<and> (\<exists>groups. concat groups = text_lines content
         \<and> map snd (split_jsonl content cs) = map concat groups)
   \<and> concat (map snd (split_jsonl content cs)) = universal_newlines content
   \<and> (CR \<notin> set content \<longrightarrow> concat (map snd (split_jsonl content cs)) = content)"
proof -
  obtain groups where h: "concat groups = text_lines content"
    "map snd (split_jsonl content cs) = map concat groups"
    using split_jsonl_groups by blast
  have "concat (map snd (split_jsonl content cs)) = concat (concat groups)"
    by (simp add: h(2) concat_chunks)
  then have c: "concat (map snd (split_jsonl content cs)) = universal_newlines content"
    by (simp add: h(1) concat_text_lines)
  show ?thesis
    using split_jsonl_index split_jsonl_groups c universal_newlines_id by simp
qed

theorem split_jsonl_lines_witness:
  "CR \<notin> set (''ab'' @ [LF] @ ''cd'' @ [LF] @ ''e'')
   \<and> concat (map snd (split_jsonl (''ab'' @ [LF] @ ''cd'' @ [LF] @ ''e'') 4))
       = ''ab'' @ [LF] @ ''cd'' @ [LF] @ ''e''"
proof -
  have h: "CR \<notin> set (''ab'' @ [LF] @ ''cd'' @ [LF] @ ''e'')"
    by (simp add: CR_def LF_def)
  show ?thesis
    using h split_jsonl_lines [of "''ab'' @ [LF] @ ''cd'' @ [LF] @ ''e''" 4] by blast
qed

text \<open>
  C10 as the specification states it fails: an input whose first line ends in \<open>\r\n\<close>
  and whose second line ends in \<open>\n\<close> comes out with both lines ending in \<open>\n\<close>.
\<close>

theorem split_jsonl_counterexample:
  "split_jsonl (''a'' @ [CR, LF] @ ''b'' @ [LF]) 100 = [(1, ''a'' @ [LF] @ ''b'' @ [LF])]
   \<and> concat (map snd (split_jsonl (''a'' @ [CR, LF] @ ''b'' @ [LF]) 100))
       \<noteq> ''a'' @ [CR, LF] @ ''b'' @ [LF]"
  by (simp add: split_jsonl_def text_lines_def split_step_def files_of_def CR_def LF_def)

end
